theory Spec2Isabelle
  imports Complex_Main
begin

section \<open>The record store (airtable\_client.py)\<close>

text \<open>
  Record identifiers are the opaque, non-empty strings the store assigns on creation; they
  are modelled as natural numbers. The empty string and \<open>None\<close>, which the routes use as
  defaults for a missing link, are therefore never identifiers: a missing link is the empty
  list (the store omits an empty linked field, which is why the source reads links with
  \<open>.get(key, default)\<close>).

  The status field only ever receives the four literals the source writes.
  Prices are Python floats; they are modelled as real numbers, so rounding, infinities and
  NaN are outside the model.
\<close>

type_synonym record_id = nat

datatype status = Unassigned | InProgress | Approved | Rejected

record user =
  user_id :: record_id
  FirstName :: string
  LastName :: string
  email :: string
  numApproved :: int
  numRejected :: int

record recipe =
  recipe_id :: record_id
  userID :: "record_id list"
  status :: status
  price :: real
  price_2x :: real
  price_3x :: real
  is_vegan :: bool
  ingredients :: "record_id list"
  reviewerID :: "record_id list"

text \<open>
  Every call of \<open>table.create\<close> or \<open>table.update\<close> is recorded, in the order the
  calls are made, in \<open>writes\<close>. \<open>next_id\<close> is the identifier the store gives to the
  next recipe it creates.
\<close>

datatype table_write =
  Users_update record_id
  | Recipes_create record_id
  | Recipes_update record_id

record store =
  table_users :: "user list"
  table_recipes :: "recipe list"
  next_id :: record_id
  writes :: "table_write list"

text \<open>A call that can raise returns \<open>Raise\<close> together with the store as the exception leaves it.\<close>

datatype 'a result = Return 'a | Raise

subsection \<open>Table primitives\<close>

text \<open>
  \<open>table_users.update(id, fields)\<close>, used only on a record that has just been fetched.
\<close>

definition users_update :: "store \<Rightarrow> record_id \<Rightarrow> (user \<Rightarrow> user) \<Rightarrow> store" where
  "users_update s uid f =
     s\<lparr>table_users := map (\<lambda>u. if user_id u = uid then f u else u) (table_users s),
       writes := writes s @ [Users_update uid]\<rparr>"

text \<open>
  \<open>table_recipes.update(id, fields)\<close>: the store answers an unknown identifier with an
  HTTP error, which the client library raises; nothing is written then.
\<close>

definition recipes_update ::
  "store \<Rightarrow> record_id \<Rightarrow> (recipe \<Rightarrow> recipe) \<Rightarrow> unit result \<times> store" where
  "recipes_update s rid f =
     (if \<exists>r \<in> set (table_recipes s). recipe_id r = rid
      then (Return (),
            s\<lparr>table_recipes := map (\<lambda>r. if recipe_id r = rid then f r else r) (table_recipes s),
              writes := writes s @ [Recipes_update rid]\<rparr>)
      else (Raise, s))"

subsection \<open>User functions\<close>

definition get_user_by_id :: "store \<Rightarrow> record_id \<Rightarrow> user option" where
  "get_user_by_id s record_id = find (\<lambda>u. user_id u = record_id) (table_users s)"

text \<open>The two counters \<open>update_user_stats\<close> is called with.\<close>

datatype stat = NumApproved | NumRejected

fun get_stat :: "stat \<Rightarrow> user \<Rightarrow> int" where
  "get_stat NumApproved u = numApproved u"
| "get_stat NumRejected u = numRejected u"

fun set_stat :: "stat \<Rightarrow> int \<Rightarrow> user \<Rightarrow> user" where
  "set_stat NumApproved n u = u\<lparr>numApproved := n\<rparr>"
| "set_stat NumRejected n u = u\<lparr>numRejected := n\<rparr>"

definition update_user_stats :: "store \<Rightarrow> record_id \<Rightarrow> stat \<Rightarrow> bool \<times> store" where
  "update_user_stats s uid stat_to_increment =
     (case get_user_by_id s uid of
        None \<Rightarrow> (False, s)
      | Some u \<Rightarrow>
          (let current_count = get_stat stat_to_increment u;
               new_count = current_count + 1
           in (True, users_update s uid (set_stat stat_to_increment new_count))))"

subsection \<open>Recipe functions\<close>

text \<open>
  The price text of the form, classified by what \<open>float(price)\<close> does with it: it raises
  \<open>ValueError\<close>, or it returns a number.
\<close>

datatype price_text = Not_a_float | Float real

text \<open>
  The record \<open>table_recipes.create\<close> returns for the fields \<open>create_recipe\<close> builds:
  the fields, under the identifier the store assigns.
\<close>

definition new_recipe :: "store \<Rightarrow> record_id \<Rightarrow> real \<Rightarrow> bool \<Rightarrow> record_id list \<Rightarrow> recipe" where
  "new_recipe s uid price_float vegan ingredient_ids =
     \<lparr>recipe_id = next_id s,
      userID = [uid],
      status = Unassigned,
      price = price_float,
      price_2x = price_float * 2,
      price_3x = price_float * 3,
      is_vegan = vegan,
      ingredients = ingredient_ids,
      reviewerID = []\<rparr>"

text \<open>
  \<open>create_recipe\<close> catches every exception, prints it and returns \<open>None\<close>; the record is
  created only when \<open>float\<close> has returned.
\<close>

definition create_recipe ::
  "store \<Rightarrow> record_id \<Rightarrow> price_text \<Rightarrow> bool \<Rightarrow> record_id list \<Rightarrow> recipe option \<times> store" where
  "create_recipe s uid p vegan ingredient_ids =
     (case p of
        Not_a_float \<Rightarrow> (None, s)
      | Float price_float \<Rightarrow>
          (let record = new_recipe s uid price_float vegan ingredient_ids
           in (Some record,
               s\<lparr>table_recipes := table_recipes s @ [record],
                 next_id := Suc (next_id s),
                 writes := writes s @ [Recipes_create (next_id s)]\<rparr>)))"

definition get_recipe_by_id :: "store \<Rightarrow> record_id \<Rightarrow> recipe option" where
  "get_recipe_by_id s rid = find (\<lambda>r. recipe_id r = rid) (table_recipes s)"

definition get_recipes_by_reviewer :: "store \<Rightarrow> record_id \<Rightarrow> status \<Rightarrow> recipe list" where
  "get_recipes_by_reviewer s reviewer_id st =
     filter (\<lambda>r. reviewer_id \<in> set (reviewerID r))
       (filter (\<lambda>r. status r = st) (table_recipes s))"

definition get_recipes_by_user :: "store \<Rightarrow> record_id \<Rightarrow> status \<Rightarrow> recipe list" where
  "get_recipes_by_user s uid st =
     filter (\<lambda>r. uid \<in> set (userID r))
       (filter (\<lambda>r. status r = st) (table_recipes s))"

definition assign_recipe_to_reviewer ::
  "store \<Rightarrow> record_id \<Rightarrow> record_id \<Rightarrow> unit result \<times> store" where
  "assign_recipe_to_reviewer s rid reviewer_id =
     recipes_update s rid (\<lambda>r. r\<lparr>status := InProgress, reviewerID := [reviewer_id]\<rparr>)"

text \<open>
  \<open>update_recipe_status\<close> first updates the user's counter (when the new status is
  approved or rejected and a user is given), then writes the recipe's status.
\<close>

definition update_recipe_status ::
  "store \<Rightarrow> record_id \<Rightarrow> status \<Rightarrow> record_id option \<Rightarrow> unit result \<times> store" where
  "update_recipe_status s rid new_status user_id_for_stats =
     (let s1 =
        (case user_id_for_stats of
           None \<Rightarrow> s
         | Some uid \<Rightarrow>
             if new_status = Approved then snd (update_user_stats s uid NumApproved)
             else if new_status = Rejected then snd (update_user_stats s uid NumRejected)
             else s)
      in recipes_update s1 rid (\<lambda>r. r\<lparr>status := new_status\<rparr>))"

definition update_rejected_recipe ::
  "store \<Rightarrow> record_id \<Rightarrow> bool \<Rightarrow> record_id list \<Rightarrow> unit result \<times> store" where
  "update_rejected_recipe s rid vegan ingredient_ids =
     recipes_update s rid
       (\<lambda>r. r\<lparr>is_vegan := vegan, ingredients := ingredient_ids,
              status := Unassigned, reviewerID := []\<rparr>)"

section \<open>The routes (app.py)\<close>

text \<open>
  The session holds the logged-in record's identifier and its role, or nothing. A route
  answers with a redirect and a flash message, a rendered page, or an HTTP error; each
  constructor of \<open>response\<close> is one of these answers:
  \<^item> \<open>Login_required\<close>: ``Please log in as a user.'', redirect to login;
  \<^item> \<open>Not_authorized\<close>: ``Not authorized.'', redirect to login;
  \<^item> \<open>Rejected_pending\<close>: ``You cannot add a new recipe while you have a rejected recipe.
    Please modify it first.'';
  \<^item> \<open>Recipe_submitted\<close>: ``Recipe submitted successfully!'';
  \<^item> \<open>Access_denied\<close>: ``Recipe not found or access denied.'';
  \<^item> \<open>Recipe_resubmitted\<close>: ``Recipe modified and resubmitted for review.'';
  \<^item> \<open>Already_in_progress\<close>: ``You already have a recipe in progress. Please review it
    first.'';
  \<^item> \<open>Recipe_assigned\<close>: ``Recipe assigned to you.'';
  \<^item> \<open>Not_assigned_to_you\<close>: ``This recipe is not assigned to you.'';
  \<^item> \<open>Not_linked_to_user\<close>: ``Error: Recipe is not linked to a user.'';
  \<^item> \<open>Recipe_approved\<close>: ``Recipe approved!''; \<open>Recipe_rejected\<close>: ``Recipe rejected.'';
  \<^item> \<open>No_flash\<close>: redirect to the reviewer dashboard with no message;
  \<^item> \<open>Page\<close>: a rendered form (GET);
  \<^item> \<open>Bad_request\<close>: a form key is missing (HTTP 400);
  \<^item> \<open>Server_error\<close>: an exception left the route (HTTP 500).
\<close>

datatype role = User | Reviewer

type_synonym session = "(record_id \<times> role) option"

datatype http_method = GET | POST

datatype response =
  Login_required
  | Not_authorized
  | Rejected_pending
  | Recipe_submitted
  | Access_denied
  | Recipe_resubmitted
  | Already_in_progress
  | Recipe_assigned
  | Not_assigned_to_you
  | Not_linked_to_user
  | Recipe_approved
  | Recipe_rejected
  | No_flash
  | Page
  | Bad_request
  | Server_error

text \<open>\<open>add_recipe\<close>: the price is \<open>None\<close> when the form has no \<open>price\<close> key.\<close>

definition add_recipe ::
  "session \<Rightarrow> http_method \<Rightarrow> price_text option \<Rightarrow> bool \<Rightarrow> record_id list \<Rightarrow> store
     \<Rightarrow> response \<times> store" where
  "add_recipe sess method form_price vegan ingredient_ids s =
     (case sess of
        Some (uid, User) \<Rightarrow>
          if get_recipes_by_user s uid Rejected \<noteq> [] then (Rejected_pending, s)
          else if method = POST then
            (case form_price of
               None \<Rightarrow> (Bad_request, s)
             | Some p \<Rightarrow> (Recipe_submitted, snd (create_recipe s uid p vegan ingredient_ids)))
          else (Page, s)
      | _ \<Rightarrow> (Login_required, s))"

text \<open>
  \<open>edit_rejected_recipe\<close>: \<open>recipe['userID'][0]\<close> raises when the recipe has no owner
  link; the three tests are evaluated in the source's order.
\<close>

definition edit_rejected_recipe ::
  "session \<Rightarrow> http_method \<Rightarrow> record_id \<Rightarrow> bool \<Rightarrow> record_id list \<Rightarrow> store
     \<Rightarrow> response \<times> store" where
  "edit_rejected_recipe sess method rid vegan ingredient_ids s =
     (case sess of
        Some (uid, User) \<Rightarrow>
          (case get_recipe_by_id s rid of
             None \<Rightarrow> (Access_denied, s)
           | Some r \<Rightarrow>
               if status r \<noteq> Rejected then (Access_denied, s)
               else (case userID r of
                       [] \<Rightarrow> (Server_error, s)
                     | owner # _ \<Rightarrow>
                         if owner \<noteq> uid then (Access_denied, s)
                         else if method = POST then
                           (case update_rejected_recipe s rid vegan ingredient_ids of
                              (Raise, s') \<Rightarrow> (Server_error, s')
                            | (Return _, s') \<Rightarrow> (Recipe_resubmitted, s'))
                         else (Page, s)))
      | _ \<Rightarrow> (Login_required, s))"

definition assign_recipe :: "session \<Rightarrow> record_id \<Rightarrow> store \<Rightarrow> response \<times> store" where
  "assign_recipe sess rid s =
     (case sess of
        Some (reviewer_id, Reviewer) \<Rightarrow>
          if get_recipes_by_reviewer s reviewer_id InProgress \<noteq> [] then (Already_in_progress, s)
          else (case assign_recipe_to_reviewer s rid reviewer_id of
                  (Raise, s') \<Rightarrow> (Server_error, s')
                | (Return _, s') \<Rightarrow> (Recipe_assigned, s'))
      | _ \<Rightarrow> (Not_authorized, s))"

text \<open>\<open>review_recipe\<close>: the action is \<open>None\<close> when the form has no \<open>action\<close> key.\<close>

definition review_recipe ::
  "session \<Rightarrow> record_id \<Rightarrow> string option \<Rightarrow> store \<Rightarrow> response \<times> store" where
  "review_recipe sess rid form_action s =
     (case sess of
        Some (reviewer_id, Reviewer) \<Rightarrow>
          (case get_recipe_by_id s rid of
             None \<Rightarrow> (Not_assigned_to_you, s)
           | Some r \<Rightarrow>
               (case reviewerID r of
                  [] \<Rightarrow> (Not_assigned_to_you, s)
                | linked # _ \<Rightarrow>
                    if linked \<noteq> reviewer_id then (Not_assigned_to_you, s)
                    else (case userID r of
                            [] \<Rightarrow> (Not_linked_to_user, s)
                          | user_id_to_update # _ \<Rightarrow>
                              (case form_action of
                                 None \<Rightarrow> (Bad_request, s)
                               | Some action \<Rightarrow>
                                   if action = ''approve'' then
                                     (case update_recipe_status s rid Approved (Some user_id_to_update) of
                                        (Raise, s') \<Rightarrow> (Server_error, s')
                                      | (Return _, s') \<Rightarrow> (Recipe_approved, s'))
                                   else if action = ''reject'' then
                                     (case update_recipe_status s rid Rejected (Some user_id_to_update) of
                                        (Raise, s') \<Rightarrow> (Server_error, s')
                                      | (Return _, s') \<Rightarrow> (Recipe_rejected, s'))
                                   else (No_flash, s)))))
      | _ \<Rightarrow> (Not_authorized, s))"

section \<open>Requests and runs\<close>

datatype request =
  Add_recipe session http_method "price_text option" bool "record_id list"
  | Edit_rejected_recipe session http_method record_id bool "record_id list"
  | Assign_recipe session record_id
  | Review_recipe session record_id "string option"

fun handle :: "request \<Rightarrow> store \<Rightarrow> response \<times> store" where
  "handle (Add_recipe sess m p v i) s = add_recipe sess m p v i s"
| "handle (Edit_rejected_recipe sess m rid v i) s = edit_rejected_recipe sess m rid v i s"
| "handle (Assign_recipe sess rid) s = assign_recipe sess rid s"
| "handle (Review_recipe sess rid a) s = review_recipe sess rid a s"

fun is_review :: "request \<Rightarrow> bool" where
  "is_review (Review_recipe _ _ _) = True"
| "is_review _ = False"

text \<open>The stores a sequence of requests passes through, the initial one first.\<close>

fun run :: "request list \<Rightarrow> store \<Rightarrow> store list" where
  "run [] s = [s]"
| "run (q # qs) s = s # run qs (snd (handle q s))"

text \<open>A store is well formed when its recipe identifiers are distinct and already issued.\<close>

definition wf_store :: "store \<Rightarrow> bool" where
  "wf_store s \<longleftrightarrow>
     distinct (map recipe_id (table_recipes s)) \<and>
     (\<forall>r \<in> set (table_recipes s). recipe_id r < next_id s)"



section \<open>Example stores\<close>

text \<open>
  One submitter, and two recipes of that submitter: recipe 10 in a given status (linked to
  reviewer 2 unless it is unassigned), and recipe 11, unassigned.
\<close>

definition example_user :: user where
  "example_user =
     \<lparr>user_id = 1, FirstName = ''Ada'', LastName = ''Byron'', email = ''ada@example.org'',
      numApproved = 1, numRejected = 0\<rparr>"

definition example_recipe :: "record_id \<Rightarrow> status \<Rightarrow> record_id list \<Rightarrow> recipe" where
  "example_recipe rid st link =
     \<lparr>recipe_id = rid, userID = [1], status = st, price = 10, price_2x = 20, price_3x = 30,
      is_vegan = False, ingredients = [100], reviewerID = link\<rparr>"

definition example_store :: "status \<Rightarrow> store" where
  "example_store st =
     \<lparr>table_users = [example_user],
      table_recipes =
        [example_recipe 10 st (if st = Unassigned then [] else [2]),
         example_recipe 11 Unassigned []],
      next_id = 12,
      writes = []\<rparr>"

section \<open>Auxiliary facts\<close>

lemmas db_defs =
  users_update_def recipes_update_def get_user_by_id_def update_user_stats_def
  create_recipe_def get_recipe_by_id_def get_recipes_by_reviewer_def get_recipes_by_user_def
  assign_recipe_to_reviewer_def update_recipe_status_def update_rejected_recipe_def
  new_recipe_def Let_def

lemmas route_defs =
  add_recipe_def edit_rejected_recipe_def assign_recipe_def review_recipe_def

lemmas example_defs = example_user_def example_recipe_def example_store_def

lemmas model_defs = route_defs db_defs example_defs

lemma find_map_same:
  assumes "\<And>r. recipe_id (f r) = recipe_id r"
  shows "find (\<lambda>r. recipe_id r = rid) (map (\<lambda>r. if recipe_id r = rid then f r else r) xs)
         = map_option f (find (\<lambda>r. recipe_id r = rid) xs)"
  using assms by (induction xs) auto

lemma find_user_map_same:
  assumes "\<And>u. user_id (f u) = user_id u"
  shows "find (\<lambda>u. user_id u = uid) (map (\<lambda>u. if user_id u = uid then f u else u) xs)
         = map_option f (find (\<lambda>u. user_id u = uid) xs)"
  using assms by (induction xs) auto

lemma get_recipe_by_id_mem:
  "get_recipe_by_id s rid = Some r \<Longrightarrow> r \<in> set (table_recipes s) \<and> recipe_id r = rid"
  by (auto simp: get_recipe_by_id_def find_Some_iff)

lemma recipes_update_found:
  assumes "get_recipe_by_id s rid = Some r"
  shows "recipes_update s rid f =
     (Return (),
      s\<lparr>table_recipes := map (\<lambda>r. if recipe_id r = rid then f r else r) (table_recipes s),
        writes := writes s @ [Recipes_update rid]\<rparr>)"
  using get_recipe_by_id_mem[OF assms] by (auto simp: recipes_update_def)

lemma set_stat_user_id [simp]: "user_id (set_stat st n u) = user_id u"
  by (cases st) simp_all

lemma update_user_stats_found:
  assumes "get_user_by_id s uid = Some u"
  shows "update_user_stats s uid st =
     (True, users_update s uid (set_stat st (get_stat st u + 1)))"
  using assms by (simp add: update_user_stats_def)

text \<open>
  What \<open>update_recipe_status\<close> does for a recipe and a user that both exist: the counter
  is written first, the status second.
\<close>

lemma update_recipe_status_found:
  assumes "get_recipe_by_id s rid = Some r"
    and "get_user_by_id s u = Some usr"
    and "(st = Approved \<and> k = NumApproved) \<or> (st = Rejected \<and> k = NumRejected)"
  shows "update_recipe_status s rid st (Some u) =
      (Return (),
       s\<lparr>table_users :=
            map (\<lambda>x. if user_id x = u then set_stat k (get_stat k usr + 1) x else x) (table_users s),
         table_recipes :=
            map (\<lambda>x. if recipe_id x = rid then x\<lparr>status := st\<rparr> else x) (table_recipes s),
         writes := writes s @ [Users_update u, Recipes_update rid]\<rparr>)"
proof -
  have "get_recipe_by_id (users_update s u f) rid = Some r" for f
    using assms(1) by (simp add: get_recipe_by_id_def users_update_def)
  then show ?thesis
    using assms(2,3)
    by (auto simp: update_recipe_status_def update_user_stats_found recipes_update_found
        users_update_def)
qed

subsection \<open>What a request does to the Recipes table\<close>

lemma add_recipe_effect:
  "snd (add_recipe sess m p v i s) = s
   \<or> (\<exists>u x. sess = Some (u, User) \<and> get_recipes_by_user s u Rejected = [] \<and> p = Some (Float x)
        \<and> snd (add_recipe sess m p v i s) = snd (create_recipe s u (Float x) v i))"
  by (auto simp: add_recipe_def create_recipe_def split: option.splits role.splits price_text.splits)

lemma edit_rejected_recipe_effect:
  "snd (edit_rejected_recipe sess m rid v i s) = s
   \<or> (\<exists>u r. sess = Some (u, User) \<and> get_recipe_by_id s rid = Some r \<and> status r = Rejected
        \<and> snd (edit_rejected_recipe sess m rid v i s) =
           s\<lparr>table_recipes :=
                map (\<lambda>r. if recipe_id r = rid
                          then r\<lparr>is_vegan := v, ingredients := i, status := Unassigned, reviewerID := []\<rparr>
                          else r) (table_recipes s),
             writes := writes s @ [Recipes_update rid]\<rparr>)"
  by (auto simp: edit_rejected_recipe_def update_rejected_recipe_def recipes_update_def
      split: option.splits role.splits list.splits)

lemma assign_recipe_effect:
  "snd (assign_recipe sess rid s) = s
   \<or> (\<exists>v. sess = Some (v, Reviewer) \<and> get_recipes_by_reviewer s v InProgress = []
        \<and> snd (assign_recipe sess rid s) =
           s\<lparr>table_recipes :=
                map (\<lambda>r. if recipe_id r = rid then r\<lparr>status := InProgress, reviewerID := [v]\<rparr> else r)
                  (table_recipes s),
             writes := writes s @ [Recipes_update rid]\<rparr>)"
  by (auto simp: assign_recipe_def assign_recipe_to_reviewer_def recipes_update_def
      split: option.splits role.splits)

lemma update_user_stats_recipes [simp]:
  "table_recipes (snd (update_user_stats s u k)) = table_recipes s"
  "next_id (snd (update_user_stats s u k)) = next_id s"
  by (simp_all add: update_user_stats_def users_update_def split: option.splits)

lemma update_recipe_status_effect:
  "st = Approved \<or> st = Rejected \<Longrightarrow>
   get_recipe_by_id s rid = Some r \<Longrightarrow>
   table_recipes (snd (update_recipe_status s rid st (Some u)))
     = map (\<lambda>r. if recipe_id r = rid then r\<lparr>status := st\<rparr> else r) (table_recipes s)
   \<and> next_id (snd (update_recipe_status s rid st (Some u))) = next_id s"
  by (auto simp: update_recipe_status_def recipes_update_def Let_def dest: get_recipe_by_id_mem)

lemma review_recipe_effect:
  "snd (review_recipe sess rid a s) = s
   \<or> (\<exists>st. st \<in> {Approved, Rejected}
        \<and> table_recipes (snd (review_recipe sess rid a s))
            = map (\<lambda>r. if recipe_id r = rid then r\<lparr>status := st\<rparr> else r) (table_recipes s)
        \<and> next_id (snd (review_recipe sess rid a s)) = next_id s)"
proof (cases "snd (review_recipe sess rid a s) = s")
  case True
  then show ?thesis by simp
next
  case False
  then obtain v r u us where r: "get_recipe_by_id s rid = Some r"
    and a: "a = Some ''approve'' \<or> a = Some ''reject''"
    and sess: "sess = Some (v, Reviewer)" and link: "hd (reviewerID r) = v" "reviewerID r \<noteq> []"
    and u: "userID r = u # us"
    by (auto simp: review_recipe_def split: option.splits role.splits list.splits if_splits)
  from a show ?thesis
  proof
    assume "a = Some ''approve''"
    then have "snd (review_recipe sess rid a s) = snd (update_recipe_status s rid Approved (Some u))"
      using r sess link u
      by (auto simp: review_recipe_def split: list.splits prod.splits result.splits)
    then show ?thesis
      using update_recipe_status_effect[of Approved s rid r u] r by auto
  next
    assume "a = Some ''reject''"
    then have "snd (review_recipe sess rid a s) = snd (update_recipe_status s rid Rejected (Some u))"
      using r sess link u
      by (auto simp: review_recipe_def split: list.splits prod.splits result.splits)
    then show ?thesis
      using update_recipe_status_effect[of Rejected s rid r u] r by auto
  qed
qed

lemma handle_effect [case_names same create assign decide resubmit]:
  obtains
    (same) "table_recipes (snd (handle q s)) = table_recipes s"
      and "next_id (snd (handle q s)) = next_id s"
  | (create) u x v i where
      "table_recipes (snd (handle q s)) = table_recipes s @ [new_recipe s u x v i]"
      and "next_id (snd (handle q s)) = Suc (next_id s)"
  | (assign) rid v where
      "get_recipes_by_reviewer s v InProgress = []"
      and "table_recipes (snd (handle q s)) =
           map (\<lambda>r. if recipe_id r = rid then r\<lparr>status := InProgress, reviewerID := [v]\<rparr> else r)
             (table_recipes s)"
      and "next_id (snd (handle q s)) = next_id s"
  | (decide) rid st where
      "is_review q" and "st = Approved \<or> st = Rejected"
      and "table_recipes (snd (handle q s)) =
           map (\<lambda>r. if recipe_id r = rid then r\<lparr>status := st\<rparr> else r) (table_recipes s)"
      and "next_id (snd (handle q s)) = next_id s"
  | (resubmit) rid v i where
      "table_recipes (snd (handle q s)) =
           map (\<lambda>r. if recipe_id r = rid
                     then r\<lparr>is_vegan := v, ingredients := i, status := Unassigned, reviewerID := []\<rparr>
                     else r) (table_recipes s)"
      and "next_id (snd (handle q s)) = next_id s"
proof (cases q)
  case (Add_recipe sess m p v i)
  from add_recipe_effect[of sess m p v i s] show ?thesis
  proof (elim disjE exE conjE)
    assume "snd (add_recipe sess m p v i s) = s"
    with Add_recipe have "table_recipes (snd (handle q s)) = table_recipes s"
      and "next_id (snd (handle q s)) = next_id s"
      by simp_all
    then show thesis by (rule same)
  next
    fix u x
    assume "snd (add_recipe sess m p v i s) = snd (create_recipe s u (Float x) v i)"
    with Add_recipe
    have "table_recipes (snd (handle q s)) = table_recipes s @ [new_recipe s u x v i]"
      and "next_id (snd (handle q s)) = Suc (next_id s)"
      by (simp_all add: create_recipe_def new_recipe_def Let_def)
    then show thesis by (rule create)
  qed
next
  case (Edit_rejected_recipe sess m rid v i)
  from edit_rejected_recipe_effect[of sess m rid v i s] show ?thesis
  proof (elim disjE exE conjE)
    assume "snd (edit_rejected_recipe sess m rid v i s) = s"
    with Edit_rejected_recipe have "table_recipes (snd (handle q s)) = table_recipes s"
      and "next_id (snd (handle q s)) = next_id s"
      by simp_all
    then show thesis by (rule same)
  next
    fix u r
    assume "snd (edit_rejected_recipe sess m rid v i s) =
           s\<lparr>table_recipes :=
                map (\<lambda>r. if recipe_id r = rid
                          then r\<lparr>is_vegan := v, ingredients := i, status := Unassigned, reviewerID := []\<rparr>
                          else r) (table_recipes s),
             writes := writes s @ [Recipes_update rid]\<rparr>"
    with Edit_rejected_recipe
    have "table_recipes (snd (handle q s)) =
           map (\<lambda>r. if recipe_id r = rid
                     then r\<lparr>is_vegan := v, ingredients := i, status := Unassigned, reviewerID := []\<rparr>
                     else r) (table_recipes s)"
      and "next_id (snd (handle q s)) = next_id s"
      by simp_all
    then show thesis by (rule resubmit)
  qed
next
  case (Assign_recipe sess rid)
  from assign_recipe_effect[of sess rid s] show ?thesis
  proof (elim disjE exE conjE)
    assume "snd (assign_recipe sess rid s) = s"
    with Assign_recipe have "table_recipes (snd (handle q s)) = table_recipes s"
      and "next_id (snd (handle q s)) = next_id s"
      by simp_all
    then show thesis by (rule same)
  next
    fix v
    assume "get_recipes_by_reviewer s v InProgress = []"
      and "snd (assign_recipe sess rid s) =
           s\<lparr>table_recipes :=
                map (\<lambda>r. if recipe_id r = rid then r\<lparr>status := InProgress, reviewerID := [v]\<rparr> else r)
                  (table_recipes s),
             writes := writes s @ [Recipes_update rid]\<rparr>"
    with Assign_recipe
    have "get_recipes_by_reviewer s v InProgress = []"
      and "table_recipes (snd (handle q s)) =
           map (\<lambda>r. if recipe_id r = rid then r\<lparr>status := InProgress, reviewerID := [v]\<rparr> else r)
             (table_recipes s)"
      and "next_id (snd (handle q s)) = next_id s"
      by simp_all
    then show thesis by (rule assign)
  qed
next
  case (Review_recipe sess rid a)
  from review_recipe_effect[of sess rid a s] show ?thesis
  proof (elim disjE exE conjE)
    assume "snd (review_recipe sess rid a s) = s"
    with Review_recipe have "table_recipes (snd (handle q s)) = table_recipes s"
      and "next_id (snd (handle q s)) = next_id s"
      by simp_all
    then show thesis by (rule same)
  next
    fix st
    assume "st \<in> {Approved, Rejected}"
      and "table_recipes (snd (review_recipe sess rid a s))
            = map (\<lambda>r. if recipe_id r = rid then r\<lparr>status := st\<rparr> else r) (table_recipes s)"
      and "next_id (snd (review_recipe sess rid a s)) = next_id s"
    with Review_recipe
    have "is_review q" and "st = Approved \<or> st = Rejected"
      and "table_recipes (snd (handle q s)) =
           map (\<lambda>r. if recipe_id r = rid then r\<lparr>status := st\<rparr> else r) (table_recipes s)"
      and "next_id (snd (handle q s)) = next_id s"
      by simp_all
    then show thesis by (rule decide)
  qed
qed

lemma filter_map_length_le:
  assumes "\<And>x. x \<in> set xs \<Longrightarrow> P (f x) \<Longrightarrow> Q x"
  shows "length (filter P (map f xs)) \<le> length (filter Q xs)"
  using assms by (induction xs) auto

lemma filter_key_length_le_1:
  assumes "distinct (map g xs)"
  shows "length (filter (\<lambda>x. g x = k) xs) \<le> 1"
  using assms
proof (induction xs)
  case Nil
  then show ?case by simp
next
  case (Cons x xs)
  show ?case
  proof (cases "g x = k")
    case True
    with Cons.prems have "k \<notin> g ` set xs"
      by simp
    then have "filter (\<lambda>x. g x = k) xs = []"
      by (auto simp: filter_empty_conv)
    with True show ?thesis by simp
  next
    case False
    with Cons show ?thesis by simp
  qed
qed

lemma map_recipe_id_update:
  assumes "\<And>r. recipe_id (f r) = recipe_id r"
  shows "map recipe_id (map (\<lambda>r. if recipe_id r = rid then f r else r) xs) = map recipe_id xs"
  using assms by (induction xs) auto

lemma wf_store_ids:
  "wf_store s \<longleftrightarrow>
     distinct (map recipe_id (table_recipes s)) \<and>
     (\<forall>i \<in> set (map recipe_id (table_recipes s)). i < next_id s)"
  by (auto simp: wf_store_def)

lemma wf_store_handle:
  assumes "wf_store s"
  shows "wf_store (snd (handle q s))"
proof (cases q s rule: handle_effect)
  case same
  with assms show ?thesis by (simp add: wf_store_def)
next
  case (create u x v i)
  with assms show ?thesis by (auto simp: wf_store_def new_recipe_def)
next
  case (assign rid v)
  have "map recipe_id (table_recipes (snd (handle q s))) = map recipe_id (table_recipes s)"
    unfolding assign(2) by (rule map_recipe_id_update) simp
  with assms assign(3) show ?thesis
    unfolding wf_store_ids by simp
next
  case (decide rid st)
  have "map recipe_id (table_recipes (snd (handle q s))) = map recipe_id (table_recipes s)"
    unfolding decide(3) by (rule map_recipe_id_update) simp
  with assms decide(4) show ?thesis
    unfolding wf_store_ids by simp
next
  case (resubmit rid v i)
  have "map recipe_id (table_recipes (snd (handle q s))) = map recipe_id (table_recipes s)"
    unfolding resubmit(1) by (rule map_recipe_id_update) simp
  with assms resubmit(2) show ?thesis
    unfolding wf_store_ids by simp
qed

lemma get_recipes_by_reviewer_filter:
  "get_recipes_by_reviewer s v st =
     filter (\<lambda>r. status r = st \<and> v \<in> set (reviewerID r)) (table_recipes s)"
  by (simp add: get_recipes_by_reviewer_def conj_commute)


lemma in_progress_handle:
  assumes wf: "wf_store s"
    and le: "length (get_recipes_by_reviewer s w InProgress) \<le> 1"
  shows "length (get_recipes_by_reviewer (snd (handle q s)) w InProgress) \<le> 1"
proof (cases q s rule: handle_effect)
  case same
  with le show ?thesis by (simp add: get_recipes_by_reviewer_filter)
next
  case (create u x v i)
  with le show ?thesis by (simp add: get_recipes_by_reviewer_filter new_recipe_def)
next
  case (assign rid v)
  show ?thesis
  proof (cases "w = v")
    case True
    from assign(1) have none: "\<And>r. r \<in> set (table_recipes s) \<Longrightarrow>
        \<not> (status r = InProgress \<and> v \<in> set (reviewerID r))"
      by (auto simp: get_recipes_by_reviewer_filter filter_empty_conv)
    have "length (get_recipes_by_reviewer (snd (handle q s)) w InProgress)
          \<le> length (filter (\<lambda>r. recipe_id r = rid) (table_recipes s))"
      unfolding get_recipes_by_reviewer_filter assign(2) True
      by (rule filter_map_length_le) (use none in \<open>auto split: if_splits\<close>)
    also have "\<dots> \<le> 1"
      using wf by (intro filter_key_length_le_1) (simp add: wf_store_def)
    finally show ?thesis .
  next
    case False
    have "length (get_recipes_by_reviewer (snd (handle q s)) w InProgress)
          \<le> length (get_recipes_by_reviewer s w InProgress)"
      unfolding get_recipes_by_reviewer_filter assign(2)
      by (rule filter_map_length_le) (use False in \<open>auto split: if_splits\<close>)
    with le show ?thesis by simp
  qed
next
  case (decide rid st)
  have "length (get_recipes_by_reviewer (snd (handle q s)) w InProgress)
        \<le> length (get_recipes_by_reviewer s w InProgress)"
    unfolding get_recipes_by_reviewer_filter decide(3)
    by (rule filter_map_length_le) (use decide(2) in \<open>auto split: if_splits\<close>)
  with le show ?thesis by simp
next
  case (resubmit rid v i)
  have "length (get_recipes_by_reviewer (snd (handle q s)) w InProgress)
        \<le> length (get_recipes_by_reviewer s w InProgress)"
    unfolding get_recipes_by_reviewer_filter resubmit(1)
    by (rule filter_map_length_le) (auto split: if_splits)
  with le show ?thesis by simp
qed

lemma in_progress_run:
  assumes "wf_store s"
    and "length (get_recipes_by_reviewer s w InProgress) \<le> 1"
    and "s' \<in> set (run qs s)"
  shows "wf_store s' \<and> length (get_recipes_by_reviewer s' w InProgress) \<le> 1"
  using assms
proof (induction qs arbitrary: s)
  case Nil
  then show ?case by simp
next
  case (Cons q qs)
  from Cons.prems(3) consider "s' = s" | "s' \<in> set (run qs (snd (handle q s)))"
    by auto
  then show ?case
  proof cases
    case 1
    with Cons.prems show ?thesis by simp
  next
    case 2
    with Cons.prems show ?thesis
      by (intro Cons.IH[of "snd (handle q s)"] wf_store_handle in_progress_handle)
  qed
qed







section \<open>Properties\<close>

text \<open>
  C1, as stated, fails. Recipe 10 is approved and linked to reviewer 2, and its owner has
  one approval. Reviewer 2 approves it again: the route answers ``Recipe approved!'' and the
  owner now has two approvals.
\<close>

theorem review_recipe_twice_counterexample:
  "status (example_recipe 10 Approved [2]) = Approved
   \<and> get_recipe_by_id (example_store Approved) 10 = Some (example_recipe 10 Approved [2])
   \<and> map numApproved (table_users (example_store Approved)) = [1]
   \<and> fst (review_recipe (Some (2, Reviewer)) 10 (Some ''approve'') (example_store Approved))
       = Recipe_approved
   \<and> map numApproved
       (table_users (snd (review_recipe (Some (2, Reviewer)) 10 (Some ''approve'') (example_store Approved))))
       = [2]"
  by (simp add: route_defs db_defs example_defs)

text \<open>
  C1, amended. \<open>review_recipe\<close> never reads the recipe's status. For a recipe whose first
  reviewer link is the acting reviewer and whose owner exists, whatever its status (terminal
  ones included), \<open>approve\<close> answers ``Recipe approved!'', sets the status to approved and
  adds one to the owner's \<open>numApproved\<close>; \<open>reject\<close> answers ``Recipe rejected.'', sets the
  status to rejected and adds one to the owner's \<open>numRejected\<close>.
\<close>

theorem review_recipe_ignores_status:
  assumes "get_recipe_by_id s rid = Some r"
    and "reviewerID r = v # vs"
    and "userID r = u # us"
    and "get_user_by_id s u = Some usr"
  shows "fst (review_recipe (Some (v, Reviewer)) rid (Some ''approve'') s) = Recipe_approved
       \<and> get_recipe_by_id (snd (review_recipe (Some (v, Reviewer)) rid (Some ''approve'') s)) rid
           = Some (r\<lparr>status := Approved\<rparr>)
       \<and> get_user_by_id (snd (review_recipe (Some (v, Reviewer)) rid (Some ''approve'') s)) u
           = Some (usr\<lparr>numApproved := numApproved usr + 1\<rparr>)
       \<and> fst (review_recipe (Some (v, Reviewer)) rid (Some ''reject'') s) = Recipe_rejected
       \<and> get_recipe_by_id (snd (review_recipe (Some (v, Reviewer)) rid (Some ''reject'') s)) rid
           = Some (r\<lparr>status := Rejected\<rparr>)
       \<and> get_user_by_id (snd (review_recipe (Some (v, Reviewer)) rid (Some ''reject'') s)) u
           = Some (usr\<lparr>numRejected := numRejected usr + 1\<rparr>)"
  using assms
  by (simp add: review_recipe_def
      update_recipe_status_found[of s rid r u usr Approved NumApproved]
      update_recipe_status_found[of s rid r u usr Rejected NumRejected]
      get_recipe_by_id_def get_user_by_id_def find_map_same find_user_map_same)

theorem review_recipe_ignores_status_witness:
  "get_recipe_by_id (example_store Rejected) 10 = Some (example_recipe 10 Rejected [2])
   \<and> get_user_by_id (example_store Rejected) 1 = Some example_user
   \<and> fst (review_recipe (Some (2, Reviewer)) 10 (Some ''reject'') (example_store Rejected))
       = Recipe_rejected
   \<and> get_user_by_id
       (snd (review_recipe (Some (2, Reviewer)) 10 (Some ''reject'') (example_store Rejected))) 1
       = Some (example_user\<lparr>numRejected := 1\<rparr>)"
proof -
  have r: "get_recipe_by_id (example_store Rejected) 10 = Some (example_recipe 10 Rejected [2])"
    by (simp add: get_recipe_by_id_def example_defs)
  have v: "reviewerID (example_recipe 10 Rejected [2]) = 2 # []"
    by (simp add: example_defs)
  have u: "userID (example_recipe 10 Rejected [2]) = 1 # []"
    by (simp add: example_defs)
  have usr: "get_user_by_id (example_store Rejected) 1 = Some example_user"
    by (simp add: get_user_by_id_def example_defs)
  have "numRejected example_user + 1 = 1"
    by (simp add: example_defs)
  then show ?thesis
    using r usr review_recipe_ignores_status [OF r v u usr] by simp
qed

text \<open>
  C2, as stated, fails. Recipe 10 is approved and linked to reviewer 2. Reviewer 3, who has
  no recipe in progress, assigns it: the route answers ``Recipe assigned to you.'', and the
  recipe is in progress and linked to reviewer 3.
\<close>

theorem assign_recipe_approved_counterexample:
  "get_recipe_by_id (example_store Approved) 10 = Some (example_recipe 10 Approved [2])
   \<and> fst (assign_recipe (Some (3, Reviewer)) 10 (example_store Approved)) = Recipe_assigned
   \<and> get_recipe_by_id (snd (assign_recipe (Some (3, Reviewer)) 10 (example_store Approved))) 10
       = Some (example_recipe 10 InProgress [3])"
  by (simp add: route_defs db_defs example_defs)

text \<open>
  C2, amended. \<open>assign_recipe\<close> never reads the target recipe's status. On an existing
  recipe, whatever its status, an assignment by a reviewer with no recipe in progress
  succeeds, sets the status to in progress and makes the reviewer the only link; an
  assignment by a reviewer who has a recipe in progress is refused with ``You already have a
  recipe in progress'' and the store is unchanged.
\<close>

theorem assign_recipe_ignores_status:
  assumes "get_recipe_by_id s rid = Some r"
  shows "(get_recipes_by_reviewer s v InProgress = [] \<longrightarrow>
            fst (assign_recipe (Some (v, Reviewer)) rid s) = Recipe_assigned
          \<and> get_recipe_by_id (snd (assign_recipe (Some (v, Reviewer)) rid s)) rid
              = Some (r\<lparr>status := InProgress, reviewerID := [v]\<rparr>))
       \<and> (get_recipes_by_reviewer s v InProgress \<noteq> [] \<longrightarrow>
            assign_recipe (Some (v, Reviewer)) rid s = (Already_in_progress, s))"
  using assms
  by (simp add: assign_recipe_def assign_recipe_to_reviewer_def recipes_update_found[OF assms]
      get_recipe_by_id_def find_map_same)

theorem assign_recipe_ignores_status_witness:
  "get_recipe_by_id (example_store Rejected) 10 = Some (example_recipe 10 Rejected [2])
   \<and> get_recipes_by_reviewer (example_store Rejected) 2 InProgress = []
   \<and> fst (assign_recipe (Some (2, Reviewer)) 10 (example_store Rejected)) = Recipe_assigned
   \<and> get_recipe_by_id (snd (assign_recipe (Some (2, Reviewer)) 10 (example_store Rejected))) 10
       = Some (example_recipe 10 InProgress [2])
   \<and> get_recipes_by_reviewer (example_store InProgress) 2 InProgress \<noteq> []
   \<and> assign_recipe (Some (2, Reviewer)) 11 (example_store InProgress)
       = (Already_in_progress, example_store InProgress)"
proof -
  have r: "get_recipe_by_id (example_store Rejected) 10 = Some (example_recipe 10 Rejected [2])"
    by (simp add: get_recipe_by_id_def example_defs)
  have r': "get_recipe_by_id (example_store InProgress) 11 = Some (example_recipe 11 Unassigned [])"
    by (simp add: get_recipe_by_id_def example_defs)
  have none: "get_recipes_by_reviewer (example_store Rejected) 2 InProgress = []"
    by (simp add: get_recipes_by_reviewer_def example_defs)
  have some: "get_recipes_by_reviewer (example_store InProgress) 2 InProgress \<noteq> []"
    by (simp add: get_recipes_by_reviewer_def example_defs)
  have "(example_recipe 10 Rejected [2])\<lparr>status := InProgress, reviewerID := [2]\<rparr>
        = example_recipe 10 InProgress [2]"
    by (simp add: example_defs)
  then show ?thesis
    using r none some assign_recipe_ignores_status [OF r, of 2]
      assign_recipe_ignores_status [OF r', of 2]
    by simp
qed



text \<open>
  Reviews are outside the sequences above, and they are what the bound depends on: a
  submitter with two pending recipes can have both rejected, since \<open>review_recipe\<close> does
  not look at the owner's other recipes.
\<close>

lemma two_rejected_after_reviews:
  "get_recipes_by_user (example_store Unassigned) 1 Rejected = []
   \<and> map recipe_id
       (get_recipes_by_user
          (last (run [Assign_recipe (Some (2, Reviewer)) 10,
                      Review_recipe (Some (2, Reviewer)) 10 (Some ''reject''),
                      Assign_recipe (Some (2, Reviewer)) 11,
                      Review_recipe (Some (2, Reviewer)) 11 (Some ''reject'')]
                 (example_store Unassigned)))
          1 Rejected)
     = [10, 11]"
  by (simp add: model_defs)

text \<open>
  C4. Take any sequence of requests (assignments, and every other request, by anyone),
  started in a well-formed store where reviewer \<open>v\<close> is linked to at most one recipe in
  progress. In every store the sequence passes through, \<open>v\<close> is linked to at most one recipe
  in progress; and whenever \<open>v\<close> has one, an assignment by \<open>v\<close> is refused with ``You
  already have a recipe in progress'' and leaves the store as it is, so the target recipe
  stays as it was.
\<close>

theorem assign_recipe_one_in_progress:
  assumes "wf_store s"
    and "length (get_recipes_by_reviewer s v InProgress) \<le> 1"
    and "s' \<in> set (run qs s)"
  shows "length (get_recipes_by_reviewer s' v InProgress) \<le> 1
       \<and> (get_recipes_by_reviewer s' v InProgress \<noteq> [] \<longrightarrow>
            assign_recipe (Some (v, Reviewer)) rid s' = (Already_in_progress, s'))"
  using in_progress_run[OF assms] by (simp add: assign_recipe_def)

theorem assign_recipe_one_in_progress_witness:
  "wf_store (example_store Unassigned)
   \<and> length (get_recipes_by_reviewer (example_store Unassigned) 2 InProgress) \<le> 1
   \<and> map recipe_id
       (get_recipes_by_reviewer
          (snd (handle (Assign_recipe (Some (2, Reviewer)) 10) (example_store Unassigned)))
          2 InProgress) = [10]
   \<and> fst (assign_recipe (Some (2, Reviewer)) 11
            (snd (handle (Assign_recipe (Some (2, Reviewer)) 10) (example_store Unassigned))))
       = Already_in_progress
   \<and> map status
       (table_recipes
          (snd (assign_recipe (Some (2, Reviewer)) 11
                  (snd (handle (Assign_recipe (Some (2, Reviewer)) 10) (example_store Unassigned))))))
       = [InProgress, Unassigned]"
proof -
  let ?q = "Assign_recipe (Some (2, Reviewer)) 10"
  have wf: "wf_store (example_store Unassigned)"
    by (simp add: wf_store_def example_defs)
  have le: "length (get_recipes_by_reviewer (example_store Unassigned) 2 InProgress) \<le> 1"
    by (simp add: get_recipes_by_reviewer_def example_defs)
  have s1: "snd (handle ?q (example_store Unassigned)) \<in> set (run [?q] (example_store Unassigned))"
    by simp
  have one: "map recipe_id
       (get_recipes_by_reviewer (snd (handle ?q (example_store Unassigned))) 2 InProgress) = [10]"
    by (simp add: model_defs)
  have st: "map status (table_recipes (snd (handle ?q (example_store Unassigned))))
            = [InProgress, Unassigned]"
    by (simp add: model_defs)
  from one have ne:
    "get_recipes_by_reviewer (snd (handle ?q (example_store Unassigned))) 2 InProgress \<noteq> []"
    by auto
  show ?thesis
    using wf le one st ne assign_recipe_one_in_progress [OF wf le s1, of 11]
    by simp
qed




text \<open>
  C6, as stated, fails. Reviewer 2 rejects recipe 10, which is in progress: the update of
  the Users table (the counter) is made before the update of the Recipes table (the status).
\<close>

theorem review_recipe_write_order_counterexample:
  "writes (example_store InProgress) = []
   \<and> fst (review_recipe (Some (2, Reviewer)) 10 (Some ''reject'') (example_store InProgress))
       = Recipe_rejected
   \<and> writes (snd (review_recipe (Some (2, Reviewer)) 10 (Some ''reject'') (example_store InProgress)))
       = [Users_update 1, Recipes_update 10]"
  by (simp add: route_defs db_defs example_defs)

text \<open>
  C6, amended. A review with action \<open>approve\<close> or \<open>reject\<close>, by the linked reviewer, of a
  recipe whose owner exists makes exactly two table writes, in this order: the owner's
  counter, then the recipe's status. The status write is the last side effect.
\<close>

theorem review_recipe_write_order:
  assumes "get_recipe_by_id s rid = Some r"
    and "reviewerID r = v # vs"
    and "userID r = u # us"
    and "get_user_by_id s u = Some usr"
    and "a = ''approve'' \<or> a = ''reject''"
  shows "writes (snd (review_recipe (Some (v, Reviewer)) rid (Some a) s))
         = writes s @ [Users_update u, Recipes_update rid]"
  using assms
  by (auto simp: review_recipe_def
      update_recipe_status_found[of s rid r u usr Approved NumApproved]
      update_recipe_status_found[of s rid r u usr Rejected NumRejected])

theorem review_recipe_write_order_witness:
  "get_recipe_by_id (example_store InProgress) 10 = Some (example_recipe 10 InProgress [2])
   \<and> get_user_by_id (example_store InProgress) 1 = Some example_user
   \<and> writes (snd (review_recipe (Some (2, Reviewer)) 10 (Some ''approve'') (example_store InProgress)))
       = [Users_update 1, Recipes_update 10]"
proof -
  have r: "get_recipe_by_id (example_store InProgress) 10 = Some (example_recipe 10 InProgress [2])"
    by (simp add: get_recipe_by_id_def example_defs)
  have v: "reviewerID (example_recipe 10 InProgress [2]) = 2 # []"
    by (simp add: example_defs)
  have u: "userID (example_recipe 10 InProgress [2]) = 1 # []"
    by (simp add: example_defs)
  have usr: "get_user_by_id (example_store InProgress) 1 = Some example_user"
    by (simp add: get_user_by_id_def example_defs)
  have a: "''approve'' = ''approve'' \<or> ''approve'' = ''reject''"
    by simp
  have "writes (example_store InProgress) = []"
    by (simp add: example_defs)
  then show ?thesis
    using r usr review_recipe_write_order [OF r v u usr a] by simp
qed

text \<open>
  C7. A POST to \<open>edit_rejected_recipe\<close> by submitter \<open>u\<close>:
  \<^item> on a rejected recipe whose first owner link is \<open>u\<close>, it succeeds: the recipe gets the
    new vegan flag and ingredients, status unassigned and no reviewer link, and the Users
    table (hence every counter) is unchanged;
  \<^item> it succeeds only on such a recipe;
  \<^item> on a recipe owned by someone else it answers ``Recipe not found or access denied.''
    and changes nothing;
  \<^item> whenever it does not succeed, the store is unchanged.
\<close>

theorem edit_rejected_recipe_resubmit:
  "(get_recipe_by_id s rid = Some r \<and> status r = Rejected \<and> userID r = u # us \<longrightarrow>
      fst (edit_rejected_recipe (Some (u, User)) POST rid v i s) = Recipe_resubmitted
    \<and> get_recipe_by_id (snd (edit_rejected_recipe (Some (u, User)) POST rid v i s)) rid
        = Some (r\<lparr>is_vegan := v, ingredients := i, status := Unassigned, reviewerID := []\<rparr>)
    \<and> table_users (snd (edit_rejected_recipe (Some (u, User)) POST rid v i s)) = table_users s)
   \<and> (fst (edit_rejected_recipe (Some (u, User)) POST rid v i s) = Recipe_resubmitted \<longrightarrow>
        (\<exists>r' us'. get_recipe_by_id s rid = Some r' \<and> status r' = Rejected \<and> userID r' = u # us'))
   \<and> (get_recipe_by_id s rid = Some r \<and> userID r = owner # us \<and> owner \<noteq> u \<longrightarrow>
        edit_rejected_recipe (Some (u, User)) POST rid v i s = (Access_denied, s))
   \<and> (fst (edit_rejected_recipe (Some (u, User)) POST rid v i s) \<noteq> Recipe_resubmitted \<longrightarrow>
        snd (edit_rejected_recipe (Some (u, User)) POST rid v i s) = s)"
proof (intro conjI impI)
  assume a: "get_recipe_by_id s rid = Some r \<and> status r = Rejected \<and> userID r = u # us"
  then have upd: "update_rejected_recipe s rid v i =
     (Return (),
      s\<lparr>table_recipes :=
           map (\<lambda>r. if recipe_id r = rid
                     then r\<lparr>is_vegan := v, ingredients := i, status := Unassigned, reviewerID := []\<rparr>
                     else r) (table_recipes s),
        writes := writes s @ [Recipes_update rid]\<rparr>)"
    by (simp add: update_rejected_recipe_def recipes_update_found)
  from a show "fst (edit_rejected_recipe (Some (u, User)) POST rid v i s) = Recipe_resubmitted"
    by (simp add: edit_rejected_recipe_def upd)
  from a show "get_recipe_by_id (snd (edit_rejected_recipe (Some (u, User)) POST rid v i s)) rid
        = Some (r\<lparr>is_vegan := v, ingredients := i, status := Unassigned, reviewerID := []\<rparr>)"
    by (simp add: edit_rejected_recipe_def upd get_recipe_by_id_def find_map_same)
  from a show "table_users (snd (edit_rejected_recipe (Some (u, User)) POST rid v i s)) = table_users s"
    by (simp add: edit_rejected_recipe_def upd)
next
  assume "fst (edit_rejected_recipe (Some (u, User)) POST rid v i s) = Recipe_resubmitted"
  then show "\<exists>r' us'. get_recipe_by_id s rid = Some r' \<and> status r' = Rejected \<and> userID r' = u # us'"
    by (auto simp: edit_rejected_recipe_def split: option.splits list.splits if_splits prod.splits result.splits)
next
  assume "get_recipe_by_id s rid = Some r \<and> userID r = owner # us \<and> owner \<noteq> u"
  then show "edit_rejected_recipe (Some (u, User)) POST rid v i s = (Access_denied, s)"
    by (simp add: edit_rejected_recipe_def)
next
  assume "fst (edit_rejected_recipe (Some (u, User)) POST rid v i s) \<noteq> Recipe_resubmitted"
  then show "snd (edit_rejected_recipe (Some (u, User)) POST rid v i s) = s"
    by (auto simp: edit_rejected_recipe_def update_rejected_recipe_def recipes_update_def
        split: option.splits list.splits if_splits)
qed

theorem edit_rejected_recipe_resubmit_witness:
  "get_recipe_by_id (example_store Rejected) 10 = Some (example_recipe 10 Rejected [2])
   \<and> fst (edit_rejected_recipe (Some (1, User)) POST 10 True [101] (example_store Rejected))
       = Recipe_resubmitted
   \<and> get_recipe_by_id
       (snd (edit_rejected_recipe (Some (1, User)) POST 10 True [101] (example_store Rejected))) 10
       = Some ((example_recipe 10 Unassigned [])\<lparr>is_vegan := True, ingredients := [101]\<rparr>)
   \<and> table_users
       (snd (edit_rejected_recipe (Some (1, User)) POST 10 True [101] (example_store Rejected)))
       = [example_user]
   \<and> edit_rejected_recipe (Some (5, User)) POST 10 True [101] (example_store Rejected)
       = (Access_denied, example_store Rejected)
   \<and> snd (edit_rejected_recipe (Some (1, User)) POST 11 True [101] (example_store Rejected))
       = example_store Rejected"
proof -
  have r: "get_recipe_by_id (example_store Rejected) 10 = Some (example_recipe 10 Rejected [2])"
    by (simp add: get_recipe_by_id_def example_defs)
  have f: "status (example_recipe 10 Rejected [2]) = Rejected"
    "userID (example_recipe 10 Rejected [2]) = 1 # []" "(1::nat) \<noteq> 5"
    "(example_recipe 10 Rejected [2])
       \<lparr>is_vegan := True, ingredients := [101], status := Unassigned, reviewerID := []\<rparr>
     = (example_recipe 10 Unassigned [])\<lparr>is_vegan := True, ingredients := [101]\<rparr>"
    "table_users (example_store Rejected) = [example_user]"
    by (simp_all add: example_defs)
  have no: "fst (edit_rejected_recipe (Some (1, User)) POST 11 True [101] (example_store Rejected))
            \<noteq> Recipe_resubmitted"
    by (simp add: model_defs)
  show ?thesis
    using r f no
      edit_rejected_recipe_resubmit
        [of "example_store Rejected" 10 "example_recipe 10 Rejected [2]" 1 "[]" True "[101]" 1]
      edit_rejected_recipe_resubmit
        [of "example_store Rejected" 10 "example_recipe 10 Rejected [2]" 5 "[]" True "[101]" 1]
      edit_rejected_recipe_resubmit
        [of "example_store Rejected" 11 "example_recipe 10 Rejected [2]" 1 "[]" True "[101]" 1]
    by simp
qed



text \<open>
  C10. A review request by a logged-in reviewer whose action is neither \<open>approve\<close> nor
  \<open>reject\<close> writes nothing: the whole store, including the record of writes, is the one
  before the request.
\<close>

theorem review_recipe_other_action_no_write:
  assumes "a \<noteq> ''approve''" and "a \<noteq> ''reject''"
  shows "snd (review_recipe (Some (v, Reviewer)) rid (Some a) s) = s"
  using assms
  by (simp add: review_recipe_def split: option.splits list.splits)

theorem review_recipe_other_action_no_write_witness:
  "''skip'' \<noteq> ''approve'' \<and> ''skip'' \<noteq> ''reject''
   \<and> get_recipe_by_id (example_store InProgress) 10 = Some (example_recipe 10 InProgress [2])
   \<and> snd (review_recipe (Some (2, Reviewer)) 10 (Some ''skip'') (example_store InProgress))
       = example_store InProgress"
  using review_recipe_other_action_no_write [of "''skip''" 2 10 "example_store InProgress"]
  by (simp add: get_recipe_by_id_def example_defs)

end
